theory Spec2Isabelle
  imports Complex_Main "HOL-Library.Word" "HOL-Library.Sublist"
begin

section \<open>Python values\<close>

text \<open>
  A Python \<open>str\<close> is a sequence of Unicode code points, so a line is a list of code points
  and not a list of bytes. \<open>py\<close> embeds a literal of the source.
\<close>

type_synonym pystr = "nat list"

definition py :: "string \<Rightarrow> pystr" where
  "py s = map of_char s"

text \<open>
  The values \<open>json.loads\<close> can return. A \<open>dict\<close> is an association list in insertion
  order (its keys are strings, and distinct after parsing).
\<close>

datatype pyfloat = Finite rat | PosInf | NegInf | NaN

datatype pyval =
    PNone
  | PBool bool
  | PInt int
  | PFloat pyfloat
  | PStr pystr
  | PList "pyval list"
  | PDict "(pystr \<times> pyval) list"

text \<open>An exception: its class and \<open>str(e)\<close>.\<close>

datatype py_error = PyError (exc_class: string) (str_of: pystr)

fun type_name :: "pyval \<Rightarrow> string" where
  "type_name PNone = ''NoneType''"
| "type_name (PBool _) = ''bool''"
| "type_name (PInt _) = ''int''"
| "type_name (PFloat _) = ''float''"
| "type_name (PStr _) = ''str''"
| "type_name (PList _) = ''list''"
| "type_name (PDict _) = ''dict''"

definition quoted :: "string \<Rightarrow> string" where
  "quoted s = CHR 0x27 # s @ [CHR 0x27]"

definition no_attribute :: "pyval \<Rightarrow> string \<Rightarrow> py_error" where
  "no_attribute v a =
     PyError ''AttributeError''
       (py (quoted (type_name v) @ '' object has no attribute '' @ quoted a))"

definition not_iterable :: "pyval \<Rightarrow> py_error" where
  "not_iterable v =
     PyError ''TypeError'' (py (quoted (type_name v) @ '' object is not iterable''))"

fun is_str :: "pyval \<Rightarrow> bool" where
  "is_str (PStr _) = True"
| "is_str _ = False"

text \<open>\<open>request_data.get('lines', [])\<close>: only a \<open>dict\<close> has the method.\<close>

fun get_lines :: "pyval \<Rightarrow> py_error + pyval" where
  "get_lines (PDict kvs) =
     (case map_of kvs (py ''lines'') of None \<Rightarrow> Inr (PList []) | Some v \<Rightarrow> Inr v)"
| "get_lines v = Inl (no_attribute v ''get'')"

text \<open>
  \<open>for line in lines\<close>: a list yields its elements, a string its characters (each a string of
  length one), a dict its keys; nothing else that JSON produces is iterable.
\<close>

fun iter :: "pyval \<Rightarrow> py_error + pyval list" where
  "iter (PList xs) = Inr xs"
| "iter (PStr cs) = Inr (map (\<lambda>c. PStr [c]) cs)"
| "iter (PDict kvs) = Inr (map (\<lambda>kv. PStr (fst kv)) kvs)"
| "iter v = Inl (not_iterable v)"

section \<open>String operations\<close>

text \<open>The code points \<open>str.strip()\<close> removes: those for which \<open>str.isspace\<close> holds.\<close>

definition isspace :: "nat \<Rightarrow> bool" where
  "isspace c \<longleftrightarrow>
     (9 \<le> c \<and> c \<le> 13) \<or> (28 \<le> c \<and> c \<le> 32) \<or> c = 133 \<or> c = 160 \<or> c = 5760
     \<or> (8192 \<le> c \<and> c \<le> 8202) \<or> c = 8232 \<or> c = 8233 \<or> c = 8239 \<or> c = 8287
     \<or> c = 12288"

definition strip :: "pystr \<Rightarrow> pystr" where
  "strip s = rev (dropWhile isspace (rev (dropWhile isspace s)))"

fun startswith :: "pystr \<Rightarrow> pystr \<Rightarrow> bool" where
  "startswith s [] = True"
| "startswith [] (p # ps) = False"
| "startswith (c # cs) (p # ps) = (c = p \<and> startswith cs ps)"

text \<open>\<open>sub in s\<close> on strings: \<open>sub\<close> occurs in \<open>s\<close> as a contiguous substring.\<close>

fun contains :: "pystr \<Rightarrow> pystr \<Rightarrow> bool" where
  "contains s sub = (startswith s sub \<or> (case s of [] \<Rightarrow> False | _ # cs \<Rightarrow> contains cs sub))"

declare contains.simps [simp del]

section \<open>Binary floating point\<close>

text \<open>
  A Python \<open>float\<close> is an IEEE 754 binary64 number. Every float this program computes with is
  finite, so a float is the rational number it denotes, and each operation is the exact
  operation followed by rounding to the nearest number with a 53 bit significand, ties to
  even (\<open>fl\<close>). The magnitudes that occur lie between \<open>2\<^sup>-\<^sup>5\<^sup>6\<close> and \<open>1\<close>, far from
  overflow and from the subnormal range, so the exponent is left unbounded.
\<close>

type_synonym double = rat

definition round_half_even :: "rat \<Rightarrow> int" where
  "round_half_even x =
     (let f = \<lfloor>x\<rfloor>; r = x - of_int f
      in if r < 1 / 2 then f else if 1 / 2 < r then f + 1 else if even f then f else f + 1)"

text \<open>The binary exponent of a positive number: \<open>2\<^sup>e \<le> x < 2\<^sup>e\<^sup>+\<^sup>1\<close>.\<close>

function expo :: "rat \<Rightarrow> int" where
  "expo x = (if x \<le> 0 then 0 else if 2 \<le> x then expo (x / 2) + 1
             else if x < 1 then expo (x * 2) - 1 else 0)"
  by pat_completeness auto
termination
proof (relation "measure (\<lambda>x. if 1 \<le> x then nat \<lfloor>x\<rfloor> else nat \<lfloor>1 / x\<rfloor> + 1)")
  show "wf (measure (\<lambda>x::rat. if 1 \<le> x then nat \<lfloor>x\<rfloor> else nat \<lfloor>1 / x\<rfloor> + 1))"
    by simp
next
  fix x :: rat assume "\<not> x \<le> 0" "2 \<le> x"
  then have "\<lfloor>x / 2\<rfloor> < \<lfloor>x\<rfloor>" by linarith
  moreover have "0 < \<lfloor>x\<rfloor>" using \<open>2 \<le> x\<close> by linarith
  ultimately show
    "(x / 2, x) \<in> measure (\<lambda>x. if 1 \<le> x then nat \<lfloor>x\<rfloor> else nat \<lfloor>1 / x\<rfloor> + 1)"
    using \<open>2 \<le> x\<close> by auto
next
  fix x :: rat assume a: "\<not> x \<le> 0" "\<not> 2 \<le> x" "x < 1"
  then have x: "0 < x" by simp
  have one: "1 < 1 / x" using a x by (simp add: field_simps)
  show "(x * 2, x) \<in> measure (\<lambda>x. if 1 \<le> x then nat \<lfloor>x\<rfloor> else nat \<lfloor>1 / x\<rfloor> + 1)"
  proof (cases "1 \<le> x * 2")
    case True
    then have "\<lfloor>x * 2\<rfloor> = 1" using a by linarith
    moreover have "1 \<le> \<lfloor>1 / x\<rfloor>" using one by linarith
    ultimately show ?thesis using True a by auto
  next
    case False
    have h: "1 / (x * 2) = (1 / x) / 2" by simp
    have "\<lfloor>y / 2\<rfloor> < \<lfloor>y\<rfloor>" if "1 < y" for y :: rat
    proof -
      have "1 \<le> \<lfloor>y\<rfloor>" using that by linarith
      then have "y / 2 < of_int \<lfloor>y\<rfloor>" by linarith
      then show ?thesis by (simp add: floor_less_iff)
    qed
    from this [OF one] have "\<lfloor>(1 / x) / 2\<rfloor> < \<lfloor>1 / x\<rfloor>" .
    moreover have "0 < \<lfloor>1 / x\<rfloor>" using one by linarith
    ultimately show ?thesis using False a unfolding in_measure h by auto
  qed
qed

declare expo.simps [simp del]

definition pow2 :: "int \<Rightarrow> rat" where
  "pow2 e = (if 0 \<le> e then 2 ^ nat e else 1 / 2 ^ nat (- e))"

definition fl :: "rat \<Rightarrow> double" where
  "fl x = (if x = 0 then 0
           else let q = pow2 (expo \<bar>x\<bar> - 52)
                in of_int (round_half_even (x / q)) * q)"

text \<open>A decimal literal of the source denotes the float nearest to it.\<close>

definition float_lit :: "rat \<Rightarrow> double" where
  "float_lit d = fl d"

definition fadd :: "double \<Rightarrow> double \<Rightarrow> double" where
  "fadd x y = fl (x + y)"

definition fsub :: "double \<Rightarrow> double \<Rightarrow> double" where
  "fsub x y = fl (x - y)"

definition fmul :: "double \<Rightarrow> double \<Rightarrow> double" where
  "fmul x y = fl (x * y)"

text \<open>
  \<open>round(x, ndigits)\<close> on a float, for \<open>ndigits \<ge> 0\<close>: the exact value of \<open>x\<close> is rounded to
  \<open>ndigits\<close> decimal places, ties to even, and the decimal obtained is converted back to the
  nearest float.
\<close>

definition py_round :: "double \<Rightarrow> nat \<Rightarrow> double" where
  "py_round x ndigits = fl (of_int (round_half_even (x * 10 ^ ndigits)) / 10 ^ ndigits)"

section \<open>The random source\<close>

text \<open>
  \<open>random.random()\<close> returns \<open>k / 2\<^sup>5\<^sup>3\<close> for a 53 bit integer \<open>k\<close>, so it lies in \<open>[0, 1)\<close>.
  The generator is the stream of the integers it will produce; a draw takes the first and
  leaves the rest. \<open>random.uniform(a, b)\<close> is \<open>a + (b - a) * random()\<close> in float arithmetic.
\<close>

type_synonym rng = "nat \<Rightarrow> 53 word"

definition unit_float :: "53 word \<Rightarrow> double" where
  "unit_float k = of_nat (unat k) / 2 ^ 53"

definition random :: "rng \<Rightarrow> double \<times> rng" where
  "random g = (unit_float (g 0), \<lambda>n. g (Suc n))"

definition uniform :: "double \<Rightarrow> double \<Rightarrow> rng \<Rightarrow> double \<times> rng" where
  "uniform a b g = (case random g of (u, g') \<Rightarrow> (fadd a (fmul (fsub b a) u), g'))"

text \<open>The generator whose every draw is \<open>k / 2\<^sup>5\<^sup>3\<close>, for concrete runs.\<close>

definition const_rng :: "53 word \<Rightarrow> rng" where
  "const_rng k = (\<lambda>n. k)"

section \<open>The request handler\<close>

text \<open>
  The body of the loop of \<open>do_POST\<close> for a line that is a string: the chain of tests picks
  the arguments of \<open>random.uniform\<close>.
\<close>

definition draw_prob :: "pystr \<Rightarrow> rng \<Rightarrow> double \<times> rng" where
  "draw_prob line g =
     (if strip line = [] then uniform (float_lit (1 / 10)) (float_lit (3 / 10)) g
      else if startswith (strip line) (py ''//'') \<or> startswith (strip line) (py ''#'')
        then uniform (float_lit (2 / 10)) (float_lit (5 / 10)) g
      else if contains line (py ''import'') \<or> contains line (py ''from'')
        then uniform (float_lit (7 / 10)) (float_lit (9 / 10)) g
      else if contains line (py ''function'') \<or> contains line (py ''def '')
              \<or> contains line (py ''class '')
        then uniform (float_lit (6 / 10)) (float_lit (8 / 10)) g
      else uniform (float_lit (3 / 10)) (float_lit (7 / 10)) g)"

text \<open>
  One iteration: \<open>line.strip()\<close> raises \<open>AttributeError\<close> on anything but a string, before
  any draw; otherwise the value appended is \<open>round(prob, 3)\<close>.
\<close>

fun loop_body :: "pyval \<Rightarrow> rng \<Rightarrow> (py_error + double) \<times> rng" where
  "loop_body (PStr line) g = (case draw_prob line g of (prob, g') \<Rightarrow> (Inr (py_round prob 3), g'))"
| "loop_body v g = (Inl (no_attribute v ''strip''), g)"

text \<open>The loop, with the list \<open>probabilities\<close> it appends to.\<close>

fun for_lines :: "pyval list \<Rightarrow> double list \<Rightarrow> rng \<Rightarrow> (py_error + double list) \<times> rng" where
  "for_lines [] probabilities g = (Inr probabilities, g)"
| "for_lines (line # rest) probabilities g =
     (case loop_body line g of
        (Inl e, g') \<Rightarrow> (Inl e, g')
      | (Inr p, g') \<Rightarrow> for_lines rest (probabilities @ [p]) g')"

text \<open>
  The statements of the \<open>try\<close> block up to the construction of the response. Its first
  argument is what \<open>json.loads(post_data.decode('utf-8'))\<close> returned or raised.
\<close>

definition try_block :: "py_error + pyval \<Rightarrow> rng \<Rightarrow> (py_error + double list) \<times> rng" where
  "try_block loaded g =
     (case loaded of
        Inl e \<Rightarrow> (Inl e, g)
      | Inr request_data \<Rightarrow>
          (case get_lines request_data of
             Inl e \<Rightarrow> (Inl e, g)
           | Inr lines \<Rightarrow>
               (case iter lines of
                  Inl e \<Rightarrow> (Inl e, g)
                | Inr items \<Rightarrow> for_lines items [] g)))"

text \<open>
  A request as the handler sees it: the method and path of the request line, the result of
  \<open>int(self.headers['Content-Length'])\<close> (which raises when the header is absent or is not
  an integer), and the result of decoding and parsing the body read with that length.
\<close>

record request =
  command :: string
  path :: string
  content_length :: "py_error + int"
  loads :: "py_error + pyval"

text \<open>
  A response: the status of \<open>send_response\<close>, the headers given to \<open>send_header\<close> in order,
  and what is written to \<open>wfile\<close> (the value given to \<open>json.dumps\<close>, or nothing).
\<close>

datatype body = NoBody | JsonBody pyval

record response =
  status :: nat
  headers :: "(string \<times> string) list"
  body :: body

text \<open>
  What a request leads to: a response sent by the handler, an exception that leaves the
  handler uncaught (no response is sent), or, for a method the class has no \<open>do_\<close> method
  for, the 501 error page of the base class \<open>BaseHTTPRequestHandler\<close>.
\<close>

datatype outcome = Sent response | Raised py_error | Unsupported

fun status_code :: "outcome \<Rightarrow> nat option" where
  "status_code (Sent r) = Some (status r)"
| "status_code (Raised e) = None"
| "status_code Unsupported = Some 501"

definition cors_headers :: "(string \<times> string) list" where
  "cors_headers =
     [(''Access-Control-Allow-Origin'', ''*''),
      (''Access-Control-Allow-Methods'', ''POST, OPTIONS''),
      (''Access-Control-Allow-Headers'', ''Content-Type'')]"

definition do_POST :: "request \<Rightarrow> rng \<Rightarrow> outcome \<times> rng" where
  "do_POST r g =
     (if path r = ''/predict'' then
        (case content_length r of
           Inl e \<Rightarrow> (Raised e, g)
         | Inr n \<Rightarrow>
             (case try_block (loads r) g of
                (Inr probabilities, g') \<Rightarrow>
                  (Sent \<lparr>status = 200,
                         headers = (''Content-Type'', ''application/json'') # cors_headers,
                         body = JsonBody (PDict [(py ''probabilities'',
                                   PList (map (\<lambda>p. PFloat (Finite p)) probabilities))])\<rparr>, g')
              | (Inl e, g') \<Rightarrow>
                  (Sent \<lparr>status = 500,
                         headers = [(''Content-Type'', ''application/json'')],
                         body = JsonBody (PDict [(py ''error'', PStr (str_of e))])\<rparr>, g')))
      else (Sent \<lparr>status = 404, headers = [], body = NoBody\<rparr>, g))"

definition do_OPTIONS :: "request \<Rightarrow> rng \<Rightarrow> outcome \<times> rng" where
  "do_OPTIONS r g = (Sent \<lparr>status = 200, headers = cors_headers, body = NoBody\<rparr>, g)"

text \<open>
  The dispatch of the base class: the method \<open>do_\<close> followed by the request's method is
  called when the class defines it.
\<close>

definition handle_one_request :: "request \<Rightarrow> rng \<Rightarrow> outcome \<times> rng" where
  "handle_one_request r g =
     (if command r = ''POST'' then do_POST r g
      else if command r = ''OPTIONS'' then do_OPTIONS r g
      else (Unsupported, g))"

section \<open>The scoring rules as the specification words them\<close>

text \<open>
  The five rules in their priority order, each with its test on the line and the endpoints
  of its interval; a line is classified by the first rule whose test holds.
\<close>

datatype rule = Blank | Comment | Import | Definition | Other

definition rule_matches :: "rule \<Rightarrow> pystr \<Rightarrow> bool" where
  "rule_matches r line =
     (case r of
        Blank \<Rightarrow> list_all isspace line
      | Comment \<Rightarrow> prefix (py ''//'') (strip line) \<or> prefix (py ''#'') (strip line)
      | Import \<Rightarrow> sublist (py ''import'') line \<or> sublist (py ''from'') line
      | Definition \<Rightarrow> sublist (py ''function'') line \<or> sublist (py ''def '') line
                      \<or> sublist (py ''class '') line
      | Other \<Rightarrow> True)"

definition classify :: "pystr \<Rightarrow> rule" where
  "classify line =
     (case find (\<lambda>r. rule_matches r line) [Blank, Comment, Import, Definition, Other] of
        Some r \<Rightarrow> r
      | None \<Rightarrow> Other)"

fun interval :: "rule \<Rightarrow> rat \<times> rat" where
  "interval Blank = (1 / 10, 3 / 10)"
| "interval Comment = (2 / 10, 5 / 10)"
| "interval Import = (7 / 10, 9 / 10)"
| "interval Definition = (6 / 10, 8 / 10)"
| "interval Other = (3 / 10, 7 / 10)"

section \<open>Concrete requests\<close>

text \<open>The request of the specification's scenario: five lines, one for each rule.\<close>

definition example_lines :: "pystr list" where
  "example_lines = [[], py ''# comment'', py ''import os'', py ''def foo():'', py ''x = 1'']"

definition example_request :: request where
  "example_request =
     \<lparr>command = ''POST'', path = ''/predict'', content_length = Inr 61,
      loads = Inr (PDict [(py ''lines'', PList (map PStr example_lines))])\<rparr>"

text \<open>The same lines in an object that has two more keys.\<close>

definition example_request_more_keys :: request where
  "example_request_more_keys =
     \<lparr>command = ''POST'', path = ''/predict'', content_length = Inr 93,
      loads = Inr (PDict [(py ''model'', PStr (py ''v2'')),
                          (py ''lines'', PList (map PStr example_lines)),
                          (py ''top_k'', PInt 3)])\<rparr>"

text \<open>An object without the key \<open>lines\<close>.\<close>

definition no_lines_request :: request where
  "no_lines_request =
     \<lparr>command = ''POST'', path = ''/predict'', content_length = Inr 10,
      loads = Inr (PDict [(py ''text'', PStr (py ''x = 1''))])\<rparr>"

text \<open>A list of lines whose second element is a number.\<close>

definition bad_line_request :: request where
  "bad_line_request =
     \<lparr>command = ''POST'', path = ''/predict'', content_length = Inr 28,
      loads = Inr (PDict [(py ''lines'', PList [PStr (py ''x = 1''), PInt 3, PNone])])\<rparr>"

text \<open>A body that is not JSON: the empty body, on which \<open>json.loads\<close> raises.\<close>

definition json_decode_error :: py_error where
  "json_decode_error =
     PyError ''JSONDecodeError'' (py ''Expecting value: line 1 column 1 (char 0)'')"

definition malformed_request :: request where
  "malformed_request =
     \<lparr>command = ''POST'', path = ''/predict'', content_length = Inr 0,
      loads = Inl json_decode_error\<rparr>"



text \<open>Requests to other routes: the same body sent with other methods and paths.\<close>

definition get_predict_request :: request where
  "get_predict_request = example_request\<lparr>command := ''GET''\<rparr>"

definition post_other_request :: request where
  "post_other_request = example_request\<lparr>path := ''/health''\<rparr>"

definition options_request :: request where
  "options_request = malformed_request\<lparr>command := ''OPTIONS'', path := ''/anything''\<rparr>"

section \<open>Strings: the operations of the code and the notions of the library\<close>

lemma startswith_prefix: "startswith s p \<longleftrightarrow> prefix p s"
  by (induction s p rule: startswith.induct) auto

lemma contains_sublist: "contains s sub \<longleftrightarrow> sublist sub s"
proof (induction s)
  case Nil
  show ?case by (simp add: contains.simps startswith_prefix)
next
  case (Cons c cs)
  show ?case
    by (simp add: contains.simps [of "c # cs"] startswith_prefix Cons sublist_Cons_right)
qed

lemma strip_empty: "strip s = [] \<longleftrightarrow> list_all isspace s"
proof
  assume "strip s = []"
  then have "dropWhile isspace s = []"
    by (simp add: strip_def dropWhile_eq_Nil_conv)
      (metis dropWhile_eq_Nil_conv set_rev rev_is_Nil_conv dropWhile_idem takeWhile_dropWhile_id)
  then show "list_all isspace s"
    by (simp add: dropWhile_eq_Nil_conv list_all_iff)
next
  assume "list_all isspace s"
  then show "strip s = []"
    by (auto simp: strip_def list_all_iff dest: set_dropWhileD)
qed

lemma classify_code:
  "classify line =
     (if list_all isspace line then Blank
      else if prefix (py ''//'') (strip line) \<or> prefix (py ''#'') (strip line) then Comment
      else if sublist (py ''import'') line \<or> sublist (py ''from'') line then Import
      else if sublist (py ''function'') line \<or> sublist (py ''def '') line
              \<or> sublist (py ''class '') line then Definition
      else Other)"
  by (simp add: classify_def rule_matches_def)

section \<open>Rounding is monotone\<close>

lemma round_half_even_cases:
  "round_half_even x = \<lfloor>x\<rfloor> \<or> round_half_even x = \<lfloor>x\<rfloor> + 1"
  by (simp add: round_half_even_def Let_def)

lemma round_half_even_of_int [simp]: "round_half_even (of_int n) = n"
  by (simp add: round_half_even_def)

lemma round_half_even_numeral [simp]: "round_half_even (numeral n) = numeral n"
  using round_half_even_of_int [of "numeral n"] by simp

lemma round_half_even_0 [simp]: "round_half_even 0 = 0"
  by (simp add: round_half_even_def)

lemma round_half_even_mono:
  assumes "x \<le> y"
  shows "round_half_even x \<le> round_half_even y"
proof (cases "\<lfloor>x\<rfloor> = \<lfloor>y\<rfloor>")
  case True
  then have "x - of_int \<lfloor>x\<rfloor> \<le> y - of_int \<lfloor>y\<rfloor>"
    using assms by simp
  then show ?thesis
    using True by (auto simp: round_half_even_def Let_def)
next
  case False
  then have "\<lfloor>x\<rfloor> + 1 \<le> \<lfloor>y\<rfloor>"
    using floor_mono [OF assms] by linarith
  moreover have "round_half_even x \<le> \<lfloor>x\<rfloor> + 1"
    using round_half_even_cases [of x] by linarith
  moreover have "\<lfloor>y\<rfloor> \<le> round_half_even y"
    using round_half_even_cases [of y] by linarith
  ultimately show ?thesis by linarith
qed

lemma pow2_powi: "pow2 e = 2 powi e"
  by (simp add: pow2_def power_int_def field_simps)

lemma pow2_pos [simp]: "0 < pow2 e"
  by (simp add: pow2_powi)

lemma pow2_add: "pow2 (a + b) = pow2 a * pow2 b"
  by (simp add: pow2_powi power_int_add)

lemma pow2_mono: "a \<le> b \<Longrightarrow> pow2 a \<le> pow2 b"
  by (simp add: pow2_powi power_int_increasing)

lemma pow2_Suc: "pow2 (e + 1) = 2 * pow2 e"
  using pow2_add [of e 1] by (simp add: pow2_def)

lemma pow2_shift: "pow2 e = 2 ^ 52 * pow2 (e - 52)" "pow2 (e + 1) = 2 ^ 53 * pow2 (e - 52)"
proof -
  have "pow2 (52 + (e - 52)) = pow2 52 * pow2 (e - 52)"
    by (rule pow2_add)
  moreover have "pow2 52 = 2 ^ 52" by (simp add: pow2_def)
  ultimately show "pow2 e = 2 ^ 52 * pow2 (e - 52)" by simp
  have "pow2 (53 + (e - 52)) = pow2 53 * pow2 (e - 52)"
    by (rule pow2_add)
  moreover have "pow2 53 = 2 ^ 53" by (simp add: pow2_def)
  moreover have "53 + (e - 52) = e + 1" by simp
  ultimately show "pow2 (e + 1) = 2 ^ 53 * pow2 (e - 52)" by simp
qed

lemma expo_bounds: "0 < x \<Longrightarrow> pow2 (expo x) \<le> x \<and> x < pow2 (expo x + 1)"
proof (induction x rule: expo.induct)
  case (1 x)
  show ?case
  proof (cases "2 \<le> x")
    case True
    then have e: "expo x = expo (x / 2) + 1"
      using "1.prems" by (subst expo.simps) simp
    have "pow2 (expo (x / 2)) \<le> x / 2 \<and> x / 2 < pow2 (expo (x / 2) + 1)"
      using "1.IH"(1) "1.prems" True by simp
    moreover have "pow2 (expo (x / 2) + 1 + 1) = 2 * (2 * pow2 (expo (x / 2)))"
      by (simp only: pow2_Suc)
    moreover have "pow2 (expo (x / 2) + 1) = 2 * pow2 (expo (x / 2))"
      by (rule pow2_Suc)
    ultimately show ?thesis
      unfolding e by linarith
  next
    case False
    show ?thesis
    proof (cases "x < 1")
      case True
      then have e: "expo x = expo (x * 2) - 1"
        using "1.prems" False by (subst expo.simps) simp
      have "pow2 (expo (x * 2)) \<le> x * 2 \<and> x * 2 < pow2 (expo (x * 2) + 1)"
        using "1.IH"(2) "1.prems" False True by simp
      moreover have "pow2 (expo (x * 2)) = 2 * pow2 (expo (x * 2) - 1)"
        using pow2_Suc [of "expo (x * 2) - 1"] by simp
      moreover have "pow2 (expo (x * 2) + 1) = 2 * pow2 (expo (x * 2))"
        by (rule pow2_Suc)
      ultimately show ?thesis
        unfolding e by simp
    next
      case nlt: False
      then have e: "expo x = 0"
        using "1.prems" False by (subst expo.simps) simp
      show ?thesis
        unfolding e using False nlt by (simp add: pow2_def)
    qed
  qed
qed

lemma fl_0 [simp]: "fl 0 = 0"
  by (simp add: fl_def)

text \<open>For a positive number, rounding stays within its binade.\<close>

lemma fl_binade:
  assumes "0 < x"
  shows "pow2 (expo x) \<le> fl x" and "fl x \<le> pow2 (expo x + 1)"
proof -
  define q where "q = pow2 (expo x - 52)"
  have q: "0 < q" by (simp add: q_def)
  have f: "fl x = of_int (round_half_even (x / q)) * q"
    using assms by (simp add: fl_def q_def Let_def)
  have lo: "pow2 (expo x) = of_int (2 ^ 52) * q"
    using pow2_shift(1) [of "expo x"] by (simp add: q_def)
  have hi: "pow2 (expo x + 1) = of_int (2 ^ 53) * q"
    using pow2_shift(2) [of "expo x"] by (simp add: q_def)
  have "of_int (2 ^ 52) \<le> x / q"
    using expo_bounds [OF assms] q unfolding lo by (simp add: pos_le_divide_eq)
  from round_half_even_mono [OF this] have "2 ^ 52 \<le> round_half_even (x / q)"
    by simp
  then have "(of_int (2 ^ 52) :: rat) \<le> of_int (round_half_even (x / q))"
    by (simp only: of_int_le_iff)
  then show "pow2 (expo x) \<le> fl x"
    unfolding lo f using q by (simp only: mult_le_cancel_right_pos)
  have "x / q \<le> of_int (2 ^ 53)"
    using expo_bounds [OF assms] q unfolding hi by (simp add: pos_divide_le_eq)
  from round_half_even_mono [OF this] have "round_half_even (x / q) \<le> 2 ^ 53"
    by simp
  then have "(of_int (round_half_even (x / q)) :: rat) \<le> of_int (2 ^ 53)"
    by (simp only: of_int_le_iff)
  then show "fl x \<le> pow2 (expo x + 1)"
    unfolding hi f using q by (simp only: mult_le_cancel_right_pos)
qed

lemma expo_mono:
  assumes "0 < x" "x \<le> y"
  shows "expo x \<le> expo y"
proof (rule ccontr)
  assume "\<not> expo x \<le> expo y"
  then have "expo y + 1 \<le> expo x" by simp
  from pow2_mono [OF this] have "pow2 (expo y + 1) \<le> x"
    using expo_bounds [OF assms(1)] by simp
  moreover have "y < pow2 (expo y + 1)"
    using expo_bounds [of y] assms by simp
  ultimately show False using assms by simp
qed

lemma fl_mono:
  assumes "0 \<le> x" "x \<le> y"
  shows "fl x \<le> fl y"
proof (cases "x = 0")
  case True
  show ?thesis
  proof (cases "y = 0")
    case False
    then have "0 < y" using assms True by simp
    from fl_binade(1) [OF this] have "0 < fl y"
      using pow2_pos [of "expo y"] by linarith
    then show ?thesis using True by simp
  qed (simp add: True)
next
  case False
  then have x: "0 < x" and y: "0 < y" using assms by simp_all
  show ?thesis
  proof (cases "expo x = expo y")
    case True
    define q where "q = pow2 (expo x - 52)"
    have q: "0 < q" by (simp add: q_def)
    have "x / q \<le> y / q"
      using assms q by (simp add: divide_right_mono)
    from round_half_even_mono [OF this]
    have "(of_int (round_half_even (x / q)) :: rat) \<le> of_int (round_half_even (y / q))"
      by (simp only: of_int_le_iff)
    then have "of_int (round_half_even (x / q)) * q \<le> of_int (round_half_even (y / q)) * q"
      using q by (simp only: mult_le_cancel_right_pos)
    then show ?thesis
      using x y True by (simp add: fl_def q_def Let_def)
  next
    case False
    then have "expo x + 1 \<le> expo y"
      using expo_mono [OF x assms(2)] by simp
    from pow2_mono [OF this] show ?thesis
      using fl_binade(2) [OF x] fl_binade(1) [OF y] by linarith
  qed
qed

lemma fl_nonneg: "0 \<le> x \<Longrightarrow> 0 \<le> fl x"
  using fl_mono [of 0 x] by simp

lemma unit_float_range: "0 \<le> unit_float k" "unit_float k < 1"
proof -
  show "0 \<le> unit_float k"
    unfolding unit_float_def by (rule divide_nonneg_nonneg [OF of_nat_0_le_iff]) simp
  have "unat k < 2 ^ 53"
    using unsigned_less [of k, where ?'a = nat] by simp
  then have "(of_nat (unat k) :: rat) < of_nat (2 ^ 53)"
    by (simp only: of_nat_less_iff)
  then have "(of_nat (unat k) :: rat) < 2 ^ 53"
    by (simp only: of_nat_power of_nat_numeral)
  then show "unit_float k < 1"
    unfolding unit_float_def by (simp only: divide_less_eq_1_pos zero_less_power zero_less_numeral)
qed

lemma py_round_mono:
  assumes "0 \<le> x" "x \<le> y"
  shows "py_round x n \<le> py_round y n"
proof -
  have "x * 10 ^ n \<le> y * 10 ^ n"
    using assms by (simp add: mult_right_mono)
  from round_half_even_mono [OF this]
  have le: "(of_int (round_half_even (x * 10 ^ n)) :: rat) \<le> of_int (round_half_even (y * 10 ^ n))"
    by (simp only: of_int_le_iff)
  have "(0::rat) \<le> x * 10 ^ n" using assms by simp
  then have "of_int 0 \<le> x * 10 ^ n" by simp
  from round_half_even_mono [OF this]
  have "(0::rat) \<le> of_int (round_half_even (x * 10 ^ n))"
    by simp
  then show ?thesis
    unfolding py_round_def using le
    by (intro fl_mono divide_right_mono divide_nonneg_nonneg) simp_all
qed

lemma uniform_bounds:
  assumes "0 \<le> a" "0 \<le> d"
  shows "fl a \<le> fadd a (fmul d (unit_float k))"
    and "fadd a (fmul d (unit_float k)) \<le> fl (a + fl d)"
proof -
  let ?u = "unit_float k"
  have du: "0 \<le> d * ?u" "d * ?u \<le> d"
    using assms unit_float_range [of k] by (simp_all add: mult_left_le)
  have m: "0 \<le> fmul d ?u" "fmul d ?u \<le> fl d"
    unfolding fmul_def using du by (simp_all add: fl_nonneg fl_mono)
  show "fl a \<le> fadd a (fmul d ?u)"
    unfolding fadd_def using assms m by (intro fl_mono) simp_all
  show "fadd a (fmul d ?u) \<le> fl (a + fl d)"
    unfolding fadd_def using assms m by (intro fl_mono) simp_all
qed

section \<open>Evaluating float expressions\<close>

lemma floor_numeral_div [simp]:
  "\<lfloor>numeral a / numeral b :: rat\<rfloor> = numeral a div numeral b"
  using floor_divide_of_int_eq [of "numeral a" "numeral b", where ?'a = rat] by simp

lemmas float_eval = fl_def expo.simps round_half_even_def pow2_def Let_def float_lit_def
  fadd_def fsub_def fmul_def py_round_def unit_float_def random_def uniform_def

section \<open>The loop and the score of a line\<close>

lemma draw_prob_classify:
  "draw_prob line g =
     uniform (float_lit (fst (interval (classify line))))
             (float_lit (snd (interval (classify line)))) g"
  by (simp add: draw_prob_def classify_code strip_empty startswith_prefix contains_sublist)

lemma uniform_eq:
  "uniform a b g = (fadd a (fmul (fsub b a) (unit_float (g 0))), \<lambda>n. g (Suc n))"
  by (simp add: uniform_def random_def)

lemma loop_body_str:
  "loop_body (PStr line) g =
     (Inr (py_round (fst (draw_prob line g)) 3), \<lambda>n. g (Suc n))"
  by (simp add: draw_prob_classify uniform_eq)

lemma loop_body_not_str:
  "\<not> is_str v \<Longrightarrow> loop_body v g = (Inl (no_attribute v ''strip''), g)"
  by (cases v) simp_all

lemma for_lines_strs:
  "for_lines (map PStr ls) acc g =
     (Inr (acc @ map (\<lambda>i. py_round (fst (draw_prob (ls ! i) (\<lambda>n. g (n + i)))) 3) [0..<length ls]),
      \<lambda>n. g (n + length ls))"
proof (induction ls arbitrary: acc g)
  case Nil
  show ?case by simp
next
  case (Cons l ls)
  have upt: "[0..<Suc (length ls)] = 0 # map Suc [0..<length ls]"
    by (simp only: map_Suc_upt upt_conv_Cons [OF zero_less_Suc])
  have "map (\<lambda>i. py_round (fst (draw_prob ((l # ls) ! i) (\<lambda>n. g (n + i)))) 3) [0..<Suc (length ls)]
      = py_round (fst (draw_prob l g)) 3
        # map (\<lambda>i. py_round (fst (draw_prob (ls ! i) (\<lambda>n. g (Suc (n + i))))) 3) [0..<length ls]"
    unfolding upt by (simp add: comp_def)
  then show ?case
    by (simp add: loop_body_str Cons.IH del: loop_body.simps upt_Suc)
qed

lemma for_lines_bad:
  "find (\<lambda>x. \<not> is_str x) xs = Some v \<Longrightarrow>
     fst (for_lines xs acc g) = Inl (no_attribute v ''strip'')"
proof (induction xs arbitrary: acc g)
  case Nil
  then show ?case by simp
next
  case (Cons x xs)
  show ?case
  proof (cases "is_str x")
    case True
    then obtain line where x: "x = PStr line" by (cases x) simp_all
    from Cons.prems True have "find (\<lambda>x. \<not> is_str x) xs = Some v" by simp
    from Cons.IH [OF this] show ?thesis
      by (simp add: x loop_body_str del: loop_body.simps)
  next
    case False
    then have "v = x" using Cons.prems by simp
    then show ?thesis
      using False by (simp add: loop_body_not_str)
  qed
qed

lemma for_lines_rounded:
  "for_lines xs acc g = (Inr ps, g') \<Longrightarrow> p \<in> set ps \<Longrightarrow>
     p \<in> set acc \<or> (\<exists>x. p = py_round x 3)"
proof (induction xs arbitrary: acc g)
  case Nil
  then show ?case by simp
next
  case (Cons x xs)
  show ?case
  proof (cases "is_str x")
    case True
    then obtain line where x: "x = PStr line" by (cases x) simp_all
    from Cons.prems(1) have
      "for_lines xs (acc @ [py_round (fst (draw_prob line g)) 3]) (\<lambda>n. g (Suc n)) = (Inr ps, g')"
      by (simp add: x loop_body_str del: loop_body.simps)
    from Cons.IH [OF this Cons.prems(2)] show ?thesis by auto
  next
    case False
    then show ?thesis
      using Cons.prems by (simp add: loop_body_not_str)
  qed
qed

lemma py_round_3_decimal: "\<exists>k::int. py_round x 3 = float_lit (of_int k / 1000)"
  by (auto simp: py_round_def float_lit_def)

lemma score_bounds:
  assumes "0 \<le> a" "0 \<le> d"
  shows "py_round (fl a) 3 \<le> py_round (fadd a (fmul d (unit_float k))) 3"
    and "py_round (fadd a (fmul d (unit_float k))) 3 \<le> py_round (fl (a + fl d)) 3"
proof -
  have "0 \<le> fl a" using assms by (simp add: fl_nonneg)
  then show "py_round (fl a) 3 \<le> py_round (fadd a (fmul d (unit_float k))) 3"
    using uniform_bounds(1) [OF assms] by (rule py_round_mono)
  have "0 \<le> fadd a (fmul d (unit_float k))"
    using \<open>0 \<le> fl a\<close> uniform_bounds(1) [OF assms, of k] by linarith
  then show "py_round (fadd a (fmul d (unit_float k))) 3 \<le> py_round (fl (a + fl d)) 3"
    using uniform_bounds(2) [OF assms] by (rule py_round_mono)
qed

lemma ends_Blank:
  "0 \<le> float_lit (1 / 10)" "0 \<le> fsub (float_lit (3 / 10)) (float_lit (1 / 10))"
  "py_round (fl (float_lit (1 / 10))) 3 = float_lit (1 / 10)"
  "py_round (fl (float_lit (1 / 10) + fl (fsub (float_lit (3 / 10)) (float_lit (1 / 10))))) 3
     = float_lit (3 / 10)"
  by (simp_all add: float_eval)

lemma ends_Comment:
  "0 \<le> float_lit (2 / 10)" "0 \<le> fsub (float_lit (5 / 10)) (float_lit (2 / 10))"
  "py_round (fl (float_lit (2 / 10))) 3 = float_lit (2 / 10)"
  "py_round (fl (float_lit (2 / 10) + fl (fsub (float_lit (5 / 10)) (float_lit (2 / 10))))) 3
     = float_lit (5 / 10)"
  by (simp_all add: float_eval)

lemma ends_Import:
  "0 \<le> float_lit (7 / 10)" "0 \<le> fsub (float_lit (9 / 10)) (float_lit (7 / 10))"
  "py_round (fl (float_lit (7 / 10))) 3 = float_lit (7 / 10)"
  "py_round (fl (float_lit (7 / 10) + fl (fsub (float_lit (9 / 10)) (float_lit (7 / 10))))) 3
     = float_lit (9 / 10)"
  by (simp_all add: float_eval)

lemma ends_Definition:
  "0 \<le> float_lit (6 / 10)" "0 \<le> fsub (float_lit (8 / 10)) (float_lit (6 / 10))"
  "py_round (fl (float_lit (6 / 10))) 3 = float_lit (6 / 10)"
  "py_round (fl (float_lit (6 / 10) + fl (fsub (float_lit (8 / 10)) (float_lit (6 / 10))))) 3
     = float_lit (8 / 10)"
  by (simp_all add: float_eval)

lemma ends_Other:
  "0 \<le> float_lit (3 / 10)" "0 \<le> fsub (float_lit (7 / 10)) (float_lit (3 / 10))"
  "py_round (fl (float_lit (3 / 10))) 3 = float_lit (3 / 10)"
  "py_round (fl (float_lit (3 / 10) + fl (fsub (float_lit (7 / 10)) (float_lit (3 / 10))))) 3
     = float_lit (7 / 10)"
  by (simp_all add: float_eval)

lemma score_in_interval:
  "float_lit (fst (interval (classify line))) \<le> py_round (fst (draw_prob line g)) 3 \<and>
   py_round (fst (draw_prob line g)) 3 \<le> float_lit (snd (interval (classify line)))"
proof (cases "classify line")
  case Blank
  show ?thesis
    using score_bounds [OF ends_Blank(1,2), of "g 0"]
    unfolding ends_Blank(3,4) by (simp add: draw_prob_classify uniform_eq Blank)
next
  case Comment
  show ?thesis
    using score_bounds [OF ends_Comment(1,2), of "g 0"]
    unfolding ends_Comment(3,4) by (simp add: draw_prob_classify uniform_eq Comment)
next
  case Import
  show ?thesis
    using score_bounds [OF ends_Import(1,2), of "g 0"]
    unfolding ends_Import(3,4) by (simp add: draw_prob_classify uniform_eq Import)
next
  case Definition
  show ?thesis
    using score_bounds [OF ends_Definition(1,2), of "g 0"]
    unfolding ends_Definition(3,4) by (simp add: draw_prob_classify uniform_eq Definition)
next
  case Other
  show ?thesis
    using score_bounds [OF ends_Other(1,2), of "g 0"]
    unfolding ends_Other(3,4) by (simp add: draw_prob_classify uniform_eq Other)
qed

section \<open>The handler on well-formed bodies\<close>

lemma try_block_strs:
  "map_of kvs (py ''lines'') = Some (PList (map PStr ls)) \<Longrightarrow>
   try_block (Inr (PDict kvs)) g =
     (Inr (map (\<lambda>i. py_round (fst (draw_prob (ls ! i) (\<lambda>n. g (n + i)))) 3) [0..<length ls]),
      \<lambda>n. g (n + length ls))"
  by (simp add: try_block_def for_lines_strs)

lemma try_block_Inr:
  "try_block loaded g = (Inr ps, g') \<Longrightarrow> \<exists>items. for_lines items [] g = (Inr ps, g')"
  by (auto simp: try_block_def split: sum.splits)

lemma py_neq [simp]: "py ''error'' \<noteq> py ''probabilities''"
  by (simp add: py_def)

lemma example_request_simps:
  "command example_request = ''POST''" "path example_request = ''/predict''"
  "content_length example_request = Inr 61"
  "loads example_request = Inr (PDict [(py ''lines'', PList (map PStr example_lines))])"
  "map_of [(py ''lines'', PList (map PStr example_lines))] (py ''lines'')
     = Some (PList (map PStr example_lines))"
  by (simp_all add: example_request_def)

text \<open>
  C1. A POST to \<open>/predict\<close> whose body is an object with \<open>lines\<close> bound to a list of strings
  is answered with status 200 and a list \<open>probabilities\<close> of the same length; its \<open>i\<close>-th
  element is what the loop body computes from the \<open>i\<close>-th line with the \<open>i\<close>-th draw.
\<close>

theorem predict_length_and_order:
  assumes "command r = ''POST''" and "path r = ''/predict''"
    and "content_length r = Inr n"
    and "loads r = Inr (PDict kvs)"
    and "map_of kvs (py ''lines'') = Some (PList (map PStr ls))"
  shows "\<exists>ps. fst (handle_one_request r g) =
            Sent \<lparr>status = 200,
                  headers = (''Content-Type'', ''application/json'') # cors_headers,
                  body = JsonBody (PDict [(py ''probabilities'',
                            PList (map (\<lambda>p. PFloat (Finite p)) ps))])\<rparr>
          \<and> length ps = length ls
          \<and> (\<forall>i<length ls. fst (loop_body (PStr (ls ! i)) (\<lambda>n. g (n + i))) = Inr (ps ! i))"
proof -
  let ?ps = "map (\<lambda>i. py_round (fst (draw_prob (ls ! i) (\<lambda>n. g (n + i)))) 3) [0..<length ls]"
  have "fst (handle_one_request r g) =
          Sent \<lparr>status = 200,
                headers = (''Content-Type'', ''application/json'') # cors_headers,
                body = JsonBody (PDict [(py ''probabilities'',
                          PList (map (\<lambda>p. PFloat (Finite p)) ?ps))])\<rparr>"
    using assms by (simp add: handle_one_request_def do_POST_def try_block_strs)
  moreover have "length ?ps = length ls"
    by simp
  moreover have
    "\<forall>i<length ls. fst (loop_body (PStr (ls ! i)) (\<lambda>n. g (n + i))) = Inr (?ps ! i)"
    by (simp add: loop_body_str del: loop_body.simps)
  ultimately show ?thesis
    by blast
qed

theorem predict_length_and_order_witness:
  "\<exists>ps. fst (handle_one_request example_request (const_rng 0)) =
            Sent \<lparr>status = 200,
                  headers = (''Content-Type'', ''application/json'') # cors_headers,
                  body = JsonBody (PDict [(py ''probabilities'',
                            PList (map (\<lambda>p. PFloat (Finite p)) ps))])\<rparr>
          \<and> length ps = 5"
proof -
  from predict_length_and_order [OF example_request_simps, of "const_rng 0"]
  obtain ps where
    "fst (handle_one_request example_request (const_rng 0)) =
       Sent \<lparr>status = 200,
             headers = (''Content-Type'', ''application/json'') # cors_headers,
             body = JsonBody (PDict [(py ''probabilities'',
                       PList (map (\<lambda>p. PFloat (Finite p)) ps))])\<rparr>"
    and "length ps = length example_lines"
    by blast
  then show ?thesis
    by (intro exI [of _ ps]) (simp add: example_lines_def)
qed

section \<open>Classification and scores\<close>

lemmas string_eval = py_def strip_def isspace_def classify_code
  startswith_prefix [symmetric] contains_sublist [symmetric] contains.simps

text \<open>
  C2. The chain of tests of the loop body applies the rule that comes first, in the order
  blank, comment, import, definition, other, among those whose test the line passes:
  the arguments of \<open>random.uniform\<close> are the endpoints of the first matching rule of the
  specification's table. The line \<open># import os\<close> passes the tests of the comment rule and
  of the import rule, and is scored by the comment rule.
\<close>

theorem first_matching_rule_wins:
  "draw_prob line g =
     uniform (float_lit (fst (interval (classify line))))
             (float_lit (snd (interval (classify line)))) g
   \<and> rule_matches Comment (py ''# import os'')
   \<and> rule_matches Import (py ''# import os'')
   \<and> draw_prob (py ''# import os'') g = uniform (float_lit (2 / 10)) (float_lit (5 / 10)) g"
proof -
  have c: "rule_matches Comment (py ''# import os'')"
    by (simp add: rule_matches_def string_eval)
  have i: "rule_matches Import (py ''# import os'')"
    by (simp add: rule_matches_def string_eval)
  have "classify (py ''# import os'') = Comment"
    by (simp add: string_eval)
  then have "draw_prob (py ''# import os'') g = uniform (float_lit (2 / 10)) (float_lit (5 / 10)) g"
    by (simp add: draw_prob_classify)
  with c i show ?thesis
    by (simp add: draw_prob_classify)
qed

theorem first_matching_rule_wins_witness:
  "draw_prob (py ''def from_x():'') (const_rng 0) =
     uniform (float_lit (7 / 10)) (float_lit (9 / 10)) (const_rng 0)
   \<and> rule_matches Definition (py ''def from_x():'')"
proof -
  have "classify (py ''def from_x():'') = Import"
    by (simp add: string_eval)
  moreover have "rule_matches Definition (py ''def from_x():'')"
    by (simp add: rule_matches_def string_eval)
  ultimately show ?thesis
    using first_matching_rule_wins [of "py ''def from_x():''" "const_rng 0"] by simp
qed

text \<open>
  C3, as stated, fails: for the empty line, which is in the class of blank lines, the draw
  \<open>1023 / 1024 = 8998403161718784 / 2\<^sup>5\<^sup>3\<close> gives \<open>0.1 + (0.3 - 0.1) * u\<close> a value that
  \<open>round(prob, 3)\<close> takes to \<open>0.3\<close>, the upper endpoint.
\<close>

theorem upper_endpoint_returned:
  "classify [] = Blank
   \<and> fst (loop_body (PStr []) (const_rng 8998403161718784)) = Inr (float_lit (3 / 10))"
  by (simp add: string_eval float_eval draw_prob_def const_rng_def)

text \<open>
  C3, as amended. The score of a line lies in the closed interval of the line's class,
  between the floats that the two literals of the source denote. The upper endpoint is a
  possible score: the empty line with the draw \<open>1023 / 1024\<close> is scored \<open>0.3\<close>,
  so the half-open intervals of the claim do not hold.
\<close>

theorem score_in_closed_interval:
  "\<exists>p. fst (loop_body (PStr line) g) = Inr p \<and>
     (case classify line of
        Blank \<Rightarrow> float_lit (1 / 10) \<le> p \<and> p \<le> float_lit (3 / 10)
      | Comment \<Rightarrow> float_lit (2 / 10) \<le> p \<and> p \<le> float_lit (5 / 10)
      | Import \<Rightarrow> float_lit (7 / 10) \<le> p \<and> p \<le> float_lit (9 / 10)
      | Definition \<Rightarrow> float_lit (6 / 10) \<le> p \<and> p \<le> float_lit (8 / 10)
      | Other \<Rightarrow> float_lit (3 / 10) \<le> p \<and> p \<le> float_lit (7 / 10))"
proof -
  have "fst (loop_body (PStr line) g) = Inr (py_round (fst (draw_prob line g)) 3)"
    by (simp add: loop_body_str del: loop_body.simps)
  moreover have
    "case classify line of
        Blank \<Rightarrow> float_lit (1 / 10) \<le> py_round (fst (draw_prob line g)) 3
                 \<and> py_round (fst (draw_prob line g)) 3 \<le> float_lit (3 / 10)
      | Comment \<Rightarrow> float_lit (2 / 10) \<le> py_round (fst (draw_prob line g)) 3
                 \<and> py_round (fst (draw_prob line g)) 3 \<le> float_lit (5 / 10)
      | Import \<Rightarrow> float_lit (7 / 10) \<le> py_round (fst (draw_prob line g)) 3
                 \<and> py_round (fst (draw_prob line g)) 3 \<le> float_lit (9 / 10)
      | Definition \<Rightarrow> float_lit (6 / 10) \<le> py_round (fst (draw_prob line g)) 3
                 \<and> py_round (fst (draw_prob line g)) 3 \<le> float_lit (8 / 10)
      | Other \<Rightarrow> float_lit (3 / 10) \<le> py_round (fst (draw_prob line g)) 3
                 \<and> py_round (fst (draw_prob line g)) 3 \<le> float_lit (7 / 10)"
    using score_in_interval [of line g] by (cases "classify line") simp_all
  ultimately show ?thesis
    by blast
qed

theorem score_in_closed_interval_witness:
  "\<exists>p. fst (loop_body (PStr (py ''import os'')) (const_rng 0)) = Inr p
       \<and> float_lit (7 / 10) \<le> p \<and> p \<le> float_lit (9 / 10)"
proof -
  have "classify (py ''import os'') = Import"
    by (simp add: string_eval)
  then show ?thesis
    using score_in_closed_interval [of "py ''import os''" "const_rng 0"] by simp
qed

text \<open>
  C4. Every element of \<open>probabilities\<close> in a response is a float rounded to three
  decimal places: it is the float that a decimal \<open>k / 1000\<close> with an integer \<open>k\<close> denotes
  (in Python, \<open>v == k / 1000\<close>).
\<close>

theorem probabilities_have_three_decimals:
  assumes "fst (handle_one_request r g) = Sent resp"
    and "body resp = JsonBody (PDict [(py ''probabilities'', PList vs)])"
    and "v \<in> set vs"
  shows "\<exists>k::int. v = PFloat (Finite (float_lit (of_int k / 1000)))"
proof -
  obtain out g' where tb: "try_block (loads r) g = (out, g')"
    by (cases "try_block (loads r) g")
  show ?thesis
  proof (cases out)
    case (Inl e)
    then show ?thesis
      using assms tb
      by (auto simp: handle_one_request_def do_POST_def do_OPTIONS_def
          split: if_splits sum.splits)
  next
    case (Inr ps)
    from tb Inr obtain items where items: "for_lines items [] g = (Inr ps, g')"
      using try_block_Inr by blast
    have "vs = map (\<lambda>p. PFloat (Finite p)) ps"
      using assms(1,2) tb Inr
      by (auto simp: handle_one_request_def do_POST_def do_OPTIONS_def
          split: if_splits sum.splits)
    with assms(3) obtain p where p: "p \<in> set ps" "v = PFloat (Finite p)"
      by auto
    from for_lines_rounded [OF items p(1)] obtain x where "p = py_round x 3"
      by auto
    with p(2) py_round_3_decimal [of x] show ?thesis
      by auto
  qed
qed

theorem probabilities_have_three_decimals_witness:
  "\<exists>k::int. PFloat (Finite (py_round (fst (draw_prob (py ''x = 1'') (const_rng 0))) 3))
      = PFloat (Finite (float_lit (of_int k / 1000)))"
proof -
  let ?p = "py_round (fst (draw_prob (py ''x = 1'') (const_rng 0))) 3"
  let ?r = "\<lparr>command = ''POST'', path = ''/predict'', content_length = Inr 20,
             loads = Inr (PDict [(py ''lines'', PList [PStr (py ''x = 1'')])])\<rparr>"
  let ?resp = "\<lparr>status = 200,
                headers = (''Content-Type'', ''application/json'') # cors_headers,
                body = JsonBody (PDict [(py ''probabilities'', PList [PFloat (Finite ?p)])])\<rparr>"
  have "fst (handle_one_request ?r (const_rng 0)) = Sent ?resp"
    by (simp add: handle_one_request_def do_POST_def try_block_def loop_body_str
        del: loop_body.simps)
  moreover have "body ?resp = JsonBody (PDict [(py ''probabilities'', PList [PFloat (Finite ?p)])])"
    by simp
  moreover have "PFloat (Finite ?p) \<in> set [PFloat (Finite ?p)]"
    by simp
  ultimately show ?thesis
    by (rule probabilities_have_three_decimals)
qed

section \<open>Errors, routes and headers\<close>

text \<open>
  The length of the body is read before the \<open>try\<close> block: when the header is absent or is
  not an integer, the exception leaves \<open>do_POST\<close> and no response is sent. The results
  below on a POST to \<open>/predict\<close> are about requests whose body was read.
\<close>

lemma unread_body_raises:
  "command r = ''POST'' \<Longrightarrow> path r = ''/predict'' \<Longrightarrow> content_length r = Inl e \<Longrightarrow>
     handle_one_request r g = (Raised e, g)"
  by (simp add: handle_one_request_def do_POST_def)

lemma for_lines_raises:
  assumes "find (\<lambda>x. \<not> is_str x) xs = Some v"
  shows "\<exists>g'. for_lines xs [] g = (Inl (no_attribute v ''strip''), g')"
proof -
  have "fst (for_lines xs [] g) = Inl (no_attribute v ''strip'')"
    using assms by (rule for_lines_bad)
  then show ?thesis
    by (cases "for_lines xs [] g") simp
qed




text \<open>
  C6, as stated, fails: the class has no method for GET, so GET \<open>/predict\<close> never reaches
  the 404 of \<open>do_POST\<close>; the base class answers it with its 501 error page.
\<close>

theorem get_predict_is_not_404:
  "fst (handle_one_request get_predict_request (const_rng 0)) = Unsupported
   \<and> status_code (fst (handle_one_request get_predict_request (const_rng 0))) = Some 501
   \<and> fst (handle_one_request get_predict_request (const_rng 0))
       \<noteq> Sent \<lparr>status = 404, headers = [], body = NoBody\<rparr>"
  by (simp add: handle_one_request_def get_predict_request_def example_request_def)

text \<open>
  C6, as amended. A POST to any path other than \<open>/predict\<close> is answered with status 404, no
  header of the handler's and an empty body, and takes no draw. A request whose method is
  neither POST nor OPTIONS reaches no method of the handler, whatever its path: the base
  class answers it with status 501.
\<close>

theorem unknown_routes:
  "(command r = ''POST'' \<and> path r \<noteq> ''/predict'' \<longrightarrow>
      handle_one_request r g = (Sent \<lparr>status = 404, headers = [], body = NoBody\<rparr>, g))
   \<and> (command r \<noteq> ''POST'' \<and> command r \<noteq> ''OPTIONS'' \<longrightarrow>
      handle_one_request r g = (Unsupported, g)
      \<and> status_code (fst (handle_one_request r g)) = Some 501)"
  by (simp add: handle_one_request_def do_POST_def)

theorem unknown_routes_witness:
  "handle_one_request post_other_request (const_rng 0) =
     (Sent \<lparr>status = 404, headers = [], body = NoBody\<rparr>, const_rng 0)
   \<and> handle_one_request get_predict_request (const_rng 0) = (Unsupported, const_rng 0)"
  using unknown_routes [of post_other_request "const_rng 0"]
    unknown_routes [of get_predict_request "const_rng 0"]
  by (simp add: post_other_request_def get_predict_request_def example_request_def)

text \<open>
  C7. Every response with status 200 carries the three CORS headers, and an OPTIONS request
  to any path is answered with status 200, exactly these headers and an empty body.
\<close>

theorem ok_responses_carry_cors_headers:
  "(fst (handle_one_request r g) = Sent resp \<and> status resp = 200 \<longrightarrow>
      (''Access-Control-Allow-Origin'', ''*'') \<in> set (headers resp)
      \<and> (''Access-Control-Allow-Methods'', ''POST, OPTIONS'') \<in> set (headers resp)
      \<and> (''Access-Control-Allow-Headers'', ''Content-Type'') \<in> set (headers resp))
   \<and> (command r = ''OPTIONS'' \<longrightarrow>
      handle_one_request r g =
        (Sent \<lparr>status = 200,
               headers = [(''Access-Control-Allow-Origin'', ''*''),
                          (''Access-Control-Allow-Methods'', ''POST, OPTIONS''),
                          (''Access-Control-Allow-Headers'', ''Content-Type'')],
               body = NoBody\<rparr>, g))"
proof (intro conjI impI)
  assume a: "fst (handle_one_request r g) = Sent resp \<and> status resp = 200"
  obtain out g' where tb: "try_block (loads r) g = (out, g')"
    by (cases "try_block (loads r) g")
  from a tb have "headers resp = cors_headers
      \<or> headers resp = (''Content-Type'', ''application/json'') # cors_headers"
    by (cases out)
      (auto simp: handle_one_request_def do_POST_def do_OPTIONS_def
        split: if_splits sum.splits)
  then show "(''Access-Control-Allow-Origin'', ''*'') \<in> set (headers resp)"
    and "(''Access-Control-Allow-Methods'', ''POST, OPTIONS'') \<in> set (headers resp)"
    and "(''Access-Control-Allow-Headers'', ''Content-Type'') \<in> set (headers resp)"
    by (auto simp: cors_headers_def)
next
  assume "command r = ''OPTIONS''"
  then show "handle_one_request r g =
        (Sent \<lparr>status = 200,
               headers = [(''Access-Control-Allow-Origin'', ''*''),
                          (''Access-Control-Allow-Methods'', ''POST, OPTIONS''),
                          (''Access-Control-Allow-Headers'', ''Content-Type'')],
               body = NoBody\<rparr>, g)"
    by (simp add: handle_one_request_def do_OPTIONS_def cors_headers_def)
qed

theorem ok_responses_carry_cors_headers_witness:
  "handle_one_request options_request (const_rng 0) =
     (Sent \<lparr>status = 200,
            headers = [(''Access-Control-Allow-Origin'', ''*''),
                       (''Access-Control-Allow-Methods'', ''POST, OPTIONS''),
                       (''Access-Control-Allow-Headers'', ''Content-Type'')],
            body = NoBody\<rparr>, const_rng 0)
   \<and> (''Access-Control-Allow-Origin'', ''*'') \<in>
       set (headers \<lparr>status = 200,
                     headers = (''Content-Type'', ''application/json'') # cors_headers,
                     body = JsonBody (PDict [(py ''probabilities'', PList [])])\<rparr>)"
proof -
  let ?resp = "\<lparr>status = 200,
                headers = (''Content-Type'', ''application/json'') # cors_headers,
                body = JsonBody (PDict [(py ''probabilities'', PList [])])\<rparr>"
  have c: "command options_request = ''OPTIONS''"
    by (simp add: options_request_def malformed_request_def)
  have p: "fst (handle_one_request no_lines_request (const_rng 0)) = Sent ?resp
      \<and> status ?resp = 200"
    by (simp add: handle_one_request_def do_POST_def try_block_def no_lines_request_def py_def)
  show ?thesis
    using ok_responses_carry_cors_headers [of options_request "const_rng 0" ?resp] c
      ok_responses_carry_cors_headers [of no_lines_request "const_rng 0" ?resp] p
    by blast
qed

text \<open>
  C8. Two POSTs to \<open>/predict\<close> whose bodies are objects with the same value under \<open>lines\<close>
  (or both without the key), handled with the same sequence of draws, get the same response
  and leave the same draws: the other keys of the object, and the length of the body, have
  no influence.
\<close>

theorem response_depends_only_on_lines:
  assumes "command r1 = ''POST''" and "path r1 = ''/predict''"
    and "command r2 = ''POST''" and "path r2 = ''/predict''"
    and "content_length r1 = Inr n1" and "content_length r2 = Inr n2"
    and "loads r1 = Inr (PDict kvs1)" and "loads r2 = Inr (PDict kvs2)"
    and "map_of kvs1 (py ''lines'') = map_of kvs2 (py ''lines'')"
  shows "handle_one_request r1 g = handle_one_request r2 g"
  using assms by (simp add: handle_one_request_def do_POST_def try_block_def)

theorem response_depends_only_on_lines_witness:
  "handle_one_request example_request (const_rng 0)
     = handle_one_request example_request_more_keys (const_rng 0)"
proof (rule response_depends_only_on_lines)
  show "command example_request = ''POST''" "path example_request = ''/predict''"
    "content_length example_request = Inr 61"
    "loads example_request = Inr (PDict [(py ''lines'', PList (map PStr example_lines))])"
    by (simp_all add: example_request_def)
  show "command example_request_more_keys = ''POST''"
    "path example_request_more_keys = ''/predict''"
    "content_length example_request_more_keys = Inr 93"
    "loads example_request_more_keys =
       Inr (PDict [(py ''model'', PStr (py ''v2'')),
                   (py ''lines'', PList (map PStr example_lines)),
                   (py ''top_k'', PInt 3)])"
    by (simp_all add: example_request_more_keys_def)
  show "map_of [(py ''lines'', PList (map PStr example_lines))] (py ''lines'')
      = map_of [(py ''model'', PStr (py ''v2'')),
                (py ''lines'', PList (map PStr example_lines)),
                (py ''top_k'', PInt 3)] (py ''lines'')"
    by (simp add: py_def)
qed

text \<open>
  C9. A POST to \<open>/predict\<close> whose body is an object without the key \<open>lines\<close> is answered
  with status 200 and the empty list of probabilities, and takes no draw.
\<close>

theorem missing_lines_is_empty_list:
  assumes "command r = ''POST''" and "path r = ''/predict''"
    and "content_length r = Inr n"
    and "loads r = Inr (PDict kvs)"
    and "map_of kvs (py ''lines'') = None"
  shows "handle_one_request r g =
           (Sent \<lparr>status = 200,
                  headers = (''Content-Type'', ''application/json'') # cors_headers,
                  body = JsonBody (PDict [(py ''probabilities'', PList [])])\<rparr>, g)"
  using assms by (simp add: handle_one_request_def do_POST_def try_block_def)

theorem missing_lines_is_empty_list_witness:
  "handle_one_request no_lines_request (const_rng 0) =
     (Sent \<lparr>status = 200,
            headers = (''Content-Type'', ''application/json'') # cors_headers,
            body = JsonBody (PDict [(py ''probabilities'', PList [])])\<rparr>, const_rng 0)"
proof (rule missing_lines_is_empty_list)
  show "command no_lines_request = ''POST''" "path no_lines_request = ''/predict''"
    "content_length no_lines_request = Inr 10"
    "loads no_lines_request = Inr (PDict [(py ''text'', PStr (py ''x = 1''))])"
    by (simp_all add: no_lines_request_def)
  show "map_of [(py ''text'', PStr (py ''x = 1''))] (py ''lines'') = None"
    by (simp add: py_def)
qed

text \<open>
  C10. A POST to \<open>/predict\<close> whose body is an object with \<open>lines\<close> bound to a list that has
  an element which is not a string is answered with status 500 and an \<open>error\<close> object: the
  message is that of the \<open>AttributeError\<close> raised by \<open>line.strip()\<close> on the first such
  element, and no list of probabilities is sent.
\<close>

theorem non_string_line_gives_500:
  assumes "command r = ''POST''" and "path r = ''/predict''"
    and "content_length r = Inr n"
    and "loads r = Inr (PDict kvs)"
    and "map_of kvs (py ''lines'') = Some (PList xs)"
    and "x \<in> set xs" and "\<not> is_str x"
  shows "\<exists>v. find (\<lambda>x. \<not> is_str x) xs = Some v
          \<and> fst (handle_one_request r g) =
              Sent \<lparr>status = 500, headers = [(''Content-Type'', ''application/json'')],
                    body = JsonBody (PDict [(py ''error'',
                              PStr (str_of (no_attribute v ''strip'')))])\<rparr>"
proof -
  from assms(6,7) have "find (\<lambda>x. \<not> is_str x) xs \<noteq> None"
    by (auto simp: find_None_iff)
  then obtain v where v: "find (\<lambda>x. \<not> is_str x) xs = Some v"
    by blast
  from for_lines_raises [OF this] obtain g' where
    "for_lines xs [] g = (Inl (no_attribute v ''strip''), g')"
    by blast
  then have "fst (handle_one_request r g) =
      Sent \<lparr>status = 500, headers = [(''Content-Type'', ''application/json'')],
            body = JsonBody (PDict [(py ''error'',
                      PStr (str_of (no_attribute v ''strip'')))])\<rparr>"
    using assms(1-5) by (simp add: handle_one_request_def do_POST_def try_block_def)
  with v show ?thesis
    by blast
qed

theorem non_string_line_gives_500_witness:
  "fst (handle_one_request bad_line_request (const_rng 0)) =
     Sent \<lparr>status = 500, headers = [(''Content-Type'', ''application/json'')],
           body = JsonBody (PDict [(py ''error'',
                     PStr (py (quoted ''int'' @ '' object has no attribute '' @ quoted ''strip'')))])\<rparr>"
proof -
  let ?xs = "[PStr (py ''x = 1''), PInt 3, PNone]"
  have "command bad_line_request = ''POST''" "path bad_line_request = ''/predict''"
    "content_length bad_line_request = Inr 28"
    "loads bad_line_request = Inr (PDict [(py ''lines'', PList ?xs)])"
    "map_of [(py ''lines'', PList ?xs)] (py ''lines'') = Some (PList ?xs)"
    "PInt 3 \<in> set ?xs" "\<not> is_str (PInt 3)"
    by (simp_all add: bad_line_request_def)
  from non_string_line_gives_500 [OF this, of "const_rng 0"]
  obtain v where "find (\<lambda>x. \<not> is_str x) ?xs = Some v"
    and r: "fst (handle_one_request bad_line_request (const_rng 0)) =
      Sent \<lparr>status = 500, headers = [(''Content-Type'', ''application/json'')],
            body = JsonBody (PDict [(py ''error'',
                      PStr (str_of (no_attribute v ''strip'')))])\<rparr>"
    by blast
  then have "v = PInt 3"
    by simp
  with r show ?thesis
    by (simp add: no_attribute_def)
qed

end
